theory Spec2Isabelle
  imports Complex_Main "HOL-Library.Word"
begin

section \<open>Data model (models.go, binary handler)\<close>

text \<open>
  Byte buffers (\<^verbatim>\<open>[]byte\<close>) are lists of 8-bit words. Go's \<^verbatim>\<open>int\<close> and \<^verbatim>\<open>int64\<close> are
  modelled as \<^typ>\<open>int\<close>: every integer the handlers compute is an offset into, or a
  length of, one of the two buffers (plus a tuning constant below 2049), so the 64-bit range
  is never left. \<^verbatim>\<open>float64\<close> is modelled as \<^typ>\<open>real\<close>, that is, without rounding.
\<close>

type_synonym byte = "8 word"

text \<open>
  A call that does not return normally: a run-time panic (slice bounds out of range), or a
  loop that never ends.
\<close>

datatype failure = Panic | Diverges

record DiffChunk =
  Offset :: int
  OldData :: "byte list"
  NewData :: "byte list"
  ChunkType :: string

record binaryMatch =
  OldOffset :: int
  NewOffset :: int
  Length :: int

record BinaryDiffStats =
  MatchCount :: int
  TotalMatchedBytes :: int
  LargestMatch :: int
  SmallestMatch :: int
  AverageMatchSize :: real
  ChunkCount :: int
  CompressionRatio :: real
  Entropy :: real

text \<open>The field \<^verbatim>\<open>Stats\<close> is a pointer; \<open>None\<close> is the nil pointer.\<close>

record GenericBinaryHandler =
  MinMatchLength :: int
  MaxGapSize :: int
  ChunkSize :: int
  Stats :: "BinaryDiffStats option"

definition zeroStats :: BinaryDiffStats where
  "zeroStats = \<lparr>MatchCount = 0, TotalMatchedBytes = 0, LargestMatch = 0, SmallestMatch = 0,
     AverageMatchSize = 0, ChunkCount = 0, CompressionRatio = 0, Entropy = 0\<rparr>"

definition NewGenericBinaryHandler :: GenericBinaryHandler where
  "NewGenericBinaryHandler =
     \<lparr>MinMatchLength = 8, MaxGapSize = 1024, ChunkSize = 4096, Stats = Some zeroStats\<rparr>"

text \<open>
  The slice expression \<^verbatim>\<open>xs[lo:hi]\<close>. Go panics unless \<open>0 \<le> lo \<le> hi \<le> cap xs\<close>; the
  capacity of a buffer is taken to be its length.
\<close>

definition slice :: "'a list \<Rightarrow> int \<Rightarrow> int \<Rightarrow> failure + 'a list" where
  "slice xs lo hi =
     (if 0 \<le> lo \<and> lo \<le> hi \<and> hi \<le> int (length xs)
      then Inr (take (nat (hi - lo)) (drop (nat lo) xs))
      else Inl Panic)"

section \<open>Entropy and tuning\<close>

text \<open>
  \<^verbatim>\<open>calculateEntropy\<close>: the frequency table \<^verbatim>\<open>freq\<close> is built by one pass over the data;
  the second loop ranges over the keys of the table (each distinct byte once, in an order Go
  leaves open, which does not matter for a sum of reals).
\<close>

definition byteFreq :: "byte list \<Rightarrow> byte \<Rightarrow> nat" where
  "byteFreq data = fold (\<lambda>b freq. freq(b := freq b + 1)) data (\<lambda>_. 0)"

definition calculateEntropy :: "byte list \<Rightarrow> real" where
  "calculateEntropy data =
     (if length data = 0 then 0
      else
        (let freq = byteFreq data;
             dataLen = real (length data);
             entropy = fold (\<lambda>b entropy.
                          (let p = real (freq b) / dataLen in entropy - p * log 2 p))
                        (remdups data) 0
         in entropy / 8))"

definition OptimizeBinaryDiff :: "GenericBinaryHandler \<Rightarrow> byte list \<Rightarrow> GenericBinaryHandler" where
  "OptimizeBinaryDiff h sampleData =
     (let entropy = calculateEntropy sampleData;
          dataSize = int (length sampleData);
          h1 = (if entropy > 0.8
                then h\<lparr>MinMatchLength := 16, MaxGapSize := 256, ChunkSize := 8192\<rparr>
                else if entropy > 0.5
                then h\<lparr>MinMatchLength := 8, MaxGapSize := 1024, ChunkSize := 4096\<rparr>
                else h\<lparr>MinMatchLength := 4, MaxGapSize := 2048, ChunkSize := 2048\<rparr>)
      in if dataSize > 10 * 1024 * 1024
         then h1\<lparr>ChunkSize := ChunkSize h1 * 4, MinMatchLength := MinMatchLength h1 + 8\<rparr>
         else if dataSize > 1024 * 1024
         then h1\<lparr>ChunkSize := ChunkSize h1 * 2, MinMatchLength := MinMatchLength h1 + 4\<rparr>
         else h1)"

section \<open>Match finding\<close>

definition rollingHash :: "byte list \<Rightarrow> int \<Rightarrow> 32 word" where
  "rollingHash data window =
     (if int (length data) < window then 0
      else fold (\<lambda>b hash. push_bit 1 hash + ucast b) (take (nat window) data) 0)"

text \<open>\<^verbatim>\<open>extendMatch\<close>: the number of leading positions at which the two buffers agree.\<close>

fun extendMatch :: "byte list \<Rightarrow> byte list \<Rightarrow> int" where
  "extendMatch (x # xs) (y # ys) = (if x \<noteq> y then 0 else 1 + extendMatch xs ys)"
| "extendMatch _ _ = 0"

text \<open>
  The hash table maps a hash to the offsets recorded for it, in insertion order; a hash that
  was never stored maps to the empty list (ranging over it does nothing, as the failed lookup
  does). The first loop of \<^verbatim>\<open>findMatches\<close>, from index \<open>i\<close> on, with stride \<open>m\<close>:
\<close>

function buildHashTable ::
  "int \<Rightarrow> byte list \<Rightarrow> int \<Rightarrow> (32 word \<Rightarrow> int list) \<Rightarrow> (32 word \<Rightarrow> int list)" where
  "buildHashTable m old i hashTable =
     (if 0 < m \<and> i \<le> int (length old) - m
      then (let hash = rollingHash (drop (nat i) old) m
            in buildHashTable m old (i + m) (hashTable(hash := hashTable hash @ [i])))
      else hashTable)"
  by pat_completeness auto
termination
  by (relation "measure (\<lambda>(m, old, i, hashTable). nat (int (length old) - i + 1))") auto

text \<open>
  The inner loop over the candidate positions: the first one whose extension reaches the
  minimum length wins (\<^verbatim>\<open>break\<close>).
\<close>

fun tryPositions :: "int \<Rightarrow> byte list \<Rightarrow> byte list \<Rightarrow> int list \<Rightarrow> (int \<times> int) option" where
  "tryPositions m old newTail [] = None"
| "tryPositions m old newTail (pos # positions) =
     (let matchLen = extendMatch (drop (nat pos) old) newTail
      in if matchLen \<ge> m then Some (pos, matchLen)
         else tryPositions m old newTail positions)"

text \<open>The second loop of \<^verbatim>\<open>findMatches\<close>, the scan of the new buffer from index \<open>i\<close> on.\<close>

function scanNew ::
  "int \<Rightarrow> (32 word \<Rightarrow> int list) \<Rightarrow> byte list \<Rightarrow> byte list \<Rightarrow> int \<Rightarrow> binaryMatch list
     \<Rightarrow> binaryMatch list" where
  "scanNew m hashTable old new i matches =
     (if 0 < m \<and> i \<le> int (length new) - m
      then (let hash = rollingHash (drop (nat i) new) m
            in case tryPositions m old (drop (nat i) new) (hashTable hash) of
                 None \<Rightarrow> scanNew m hashTable old new (i + m) matches
               | Some (pos, matchLen) \<Rightarrow>
                   scanNew m hashTable old new (i + (matchLen - 1) + m)
                     (matches @ [\<lparr>OldOffset = pos, NewOffset = i, Length = matchLen\<rparr>]))
      else matches)"
  by pat_completeness auto
termination
proof -
  have len: "m \<le> matchLen"
    if "tryPositions m old newTail positions = Some (pos, matchLen)"
    for m old newTail positions pos matchLen
    using that by (induction positions) (auto simp: Let_def split: if_splits)
  show ?thesis
    by (relation "measure (\<lambda>(m, hashTable, old, new, i, matches). nat (int (length new) - i + 1))")
       (auto dest: len)
qed

text \<open>
  Both loops are unfolded on demand only: their defining equations are unconditional.
\<close>

declare buildHashTable.simps [simp del] scanNew.simps [simp del]

text \<open>\<^verbatim>\<open>mergeAdjacentMatches\<close>: the loop over \<open>matches[1:]\<close> with the running \<open>current\<close>.\<close>

fun mergeLoop :: "int \<Rightarrow> binaryMatch \<Rightarrow> binaryMatch list \<Rightarrow> binaryMatch list \<Rightarrow> binaryMatch list" where
  "mergeLoop maxGap current [] merged = merged @ [current]"
| "mergeLoop maxGap current (next # rest) merged =
     (let gapOld = OldOffset next - (OldOffset current + Length current);
          gapNew = NewOffset next - (NewOffset current + Length current)
      in if gapOld \<le> maxGap \<and> gapNew \<le> maxGap
         then mergeLoop maxGap
                (current\<lparr>Length := NewOffset next + Length next - NewOffset current\<rparr>) rest merged
         else mergeLoop maxGap next rest (merged @ [current]))"

definition mergeAdjacentMatches :: "GenericBinaryHandler \<Rightarrow> binaryMatch list \<Rightarrow> binaryMatch list" where
  "mergeAdjacentMatches h matches =
     (case matches of
        [] \<Rightarrow> matches
      | [single] \<Rightarrow> matches
      | current # rest \<Rightarrow> mergeLoop (MaxGapSize h) current rest [])"

text \<open>
  \<^verbatim>\<open>findMatches\<close>. With both buffers non-empty the indexing loop is entered at \<open>i = 0\<close>. For a
  stride \<^verbatim>\<open>MinMatchLength\<close> of 0 the index never advances and the loop does not end; for a
  negative stride the second iteration evaluates \<^verbatim>\<open>old[i:]\<close> at a negative index and
  panics. Both are results of the model.
\<close>

definition findMatches ::
  "GenericBinaryHandler \<Rightarrow> byte list \<Rightarrow> byte list \<Rightarrow> failure + binaryMatch list" where
  "findMatches h old new =
     (if length old = 0 \<or> length new = 0 then Inr []
      else if MinMatchLength h = 0 then Inl Diverges
      else if MinMatchLength h < 0 then Inl Panic
      else
        (let hashTable = buildHashTable (MinMatchLength h) old 0 (\<lambda>_. []);
             matches = scanNew (MinMatchLength h) hashTable old new 0 []
         in Inr (mergeAdjacentMatches h matches)))"

section \<open>Statistics\<close>

text \<open>The loop of \<^verbatim>\<open>AnalyzeBinaryDiff\<close> over the matches, on the running total and stats.\<close>

fun analyzeLoop :: "binaryMatch list \<Rightarrow> int \<Rightarrow> BinaryDiffStats \<Rightarrow> int \<times> BinaryDiffStats" where
  "analyzeLoop [] totalSize stats = (totalSize, stats)"
| "analyzeLoop (match # matches) totalSize stats =
     (let totalSize1 = totalSize + Length match;
          stats1 = (if Length match > LargestMatch stats
                    then stats\<lparr>LargestMatch := Length match\<rparr> else stats);
          stats2 = (if Length match < SmallestMatch stats1
                    then stats1\<lparr>SmallestMatch := Length match\<rparr> else stats1)
      in analyzeLoop matches totalSize1 stats2)"

definition AnalyzeBinaryDiff ::
  "GenericBinaryHandler \<Rightarrow> byte list \<Rightarrow> byte list \<Rightarrow> failure + BinaryDiffStats" where
  "AnalyzeBinaryDiff h old new =
     (case findMatches h old new of
        Inl e \<Rightarrow> Inl e
      | Inr matches \<Rightarrow>
          (let stats = zeroStats\<lparr>MatchCount := int (length matches),
                                 SmallestMatch := MinMatchLength h\<rparr>
           in if length matches = 0 then Inr (stats\<lparr>CompressionRatio := 1\<rparr>)
              else
                (let (totalSize, stats1) = analyzeLoop matches 0 stats
                 in Inr (stats1\<lparr>TotalMatchedBytes := totalSize,
                                 AverageMatchSize := real_of_int totalSize / real (length matches),
                                 CompressionRatio := real (length new) / real_of_int totalSize,
                                 Entropy := calculateEntropy new\<rparr>))))"

section \<open>Compare and Patch of the binary handler\<close>

definition binaryChunk :: "int \<Rightarrow> byte list \<Rightarrow> byte list \<Rightarrow> DiffChunk" where
  "binaryChunk off od nd = \<lparr>Offset = off, OldData = od, NewData = nd, ChunkType = ''binary''\<rparr>"

text \<open>
  The loop of \<^verbatim>\<open>Compare\<close> over the matches, on \<open>chunks\<close>, \<open>lastOldEnd\<close> and \<open>lastNewEnd\<close>.
\<close>

fun compareLoop ::
  "byte list \<Rightarrow> byte list \<Rightarrow> binaryMatch list \<Rightarrow> DiffChunk list \<Rightarrow> int \<Rightarrow> int
     \<Rightarrow> failure + (DiffChunk list \<times> int \<times> int)" where
  "compareLoop old new [] chunks lastOldEnd lastNewEnd = Inr (chunks, lastOldEnd, lastNewEnd)"
| "compareLoop old new (match # matches) chunks lastOldEnd lastNewEnd =
     (if NewOffset match > lastNewEnd
      then (case slice old lastOldEnd (OldOffset match) of
              Inl e \<Rightarrow> Inl e
            | Inr od \<Rightarrow>
               (case slice new lastNewEnd (NewOffset match) of
                  Inl e \<Rightarrow> Inl e
                | Inr nd \<Rightarrow>
                    compareLoop old new matches (chunks @ [binaryChunk lastOldEnd od nd])
                      (OldOffset match + Length match) (NewOffset match + Length match)))
      else compareLoop old new matches chunks
             (OldOffset match + Length match) (NewOffset match + Length match))"

text \<open>The trailing chunk of \<^verbatim>\<open>Compare\<close>.\<close>

definition compareTail ::
  "byte list \<Rightarrow> byte list \<Rightarrow> DiffChunk list \<Rightarrow> int \<Rightarrow> int \<Rightarrow> failure + DiffChunk list" where
  "compareTail old new chunks lastOldEnd lastNewEnd =
     (if lastNewEnd < int (length new)
      then (case slice old lastOldEnd (int (length old)) of
              Inl e \<Rightarrow> Inl e
            | Inr od \<Rightarrow>
               (case slice new lastNewEnd (int (length new)) of
                  Inl e \<Rightarrow> Inl e
                | Inr nd \<Rightarrow> Inr (chunks @ [binaryChunk lastOldEnd od nd])))
      else Inr chunks)"

text \<open>
  \<^verbatim>\<open>Compare\<close> returns the chunks and leaves the handler updated; the Go error result is
  always nil (\<^verbatim>\<open>AnalyzeBinaryDiff\<close> never returns one), so \<open>Inl\<close> is a call that does not
  return.
\<close>

definition Compare ::
  "GenericBinaryHandler \<Rightarrow> byte list \<Rightarrow> byte list
     \<Rightarrow> failure + (DiffChunk list \<times> GenericBinaryHandler)" where
  "Compare h old new =
     (if old = new then Inr ([], h)
      else
        (let h1 = OptimizeBinaryDiff h new in
         case findMatches h1 old new of
           Inl e \<Rightarrow> Inl e
         | Inr matches \<Rightarrow>
            (case compareLoop old new matches [] 0 0 of
               Inl e \<Rightarrow> Inl e
             | Inr (chunks0, lastOldEnd, lastNewEnd) \<Rightarrow>
                (case compareTail old new chunks0 lastOldEnd lastNewEnd of
                   Inl e \<Rightarrow> Inl e
                 | Inr chunks \<Rightarrow>
                    (case AnalyzeBinaryDiff h1 old new of
                       Inl e \<Rightarrow> Inl e
                     | Inr stats \<Rightarrow>
                         Inr (chunks,
                              h1\<lparr>Stats := Some (stats\<lparr>ChunkCount := int (length chunks),
                                                       Entropy := calculateEntropy new\<rparr>)\<rparr>))))))"

definition GetLatestStats :: "GenericBinaryHandler \<Rightarrow> BinaryDiffStats option" where
  "GetLatestStats h = Stats h"

definition GetFileType :: string where
  "GetFileType = ''binary''"

fun patchLoop ::
  "byte list \<Rightarrow> DiffChunk list \<Rightarrow> byte list \<Rightarrow> int \<Rightarrow> failure + (byte list \<times> int)" where
  "patchLoop original [] result lastOffset = Inr (result, lastOffset)"
| "patchLoop original (chunk # chunks) result lastOffset =
     (if Offset chunk > lastOffset
      then (case slice original lastOffset (Offset chunk) of
              Inl e \<Rightarrow> Inl e
            | Inr seg \<Rightarrow>
                patchLoop original chunks (result @ seg @ NewData chunk)
                  (Offset chunk + int (length (OldData chunk))))
      else patchLoop original chunks (result @ NewData chunk)
             (Offset chunk + int (length (OldData chunk))))"

definition patchTail :: "byte list \<Rightarrow> byte list \<Rightarrow> int \<Rightarrow> failure + byte list" where
  "patchTail original result lastOffset =
     (if lastOffset < int (length original)
      then (case slice original lastOffset (int (length original)) of
              Inl e \<Rightarrow> Inl e
            | Inr seg \<Rightarrow> Inr (result @ seg))
      else Inr result)"

definition Patch :: "byte list \<Rightarrow> DiffChunk list \<Rightarrow> failure + byte list" where
  "Patch original chunks =
     (if length chunks = 0 then Inr original
      else (case patchLoop original chunks [] 0 of
              Inl e \<Rightarrow> Inl e
            | Inr (result, lastOffset) \<Rightarrow> patchTail original result lastOffset))"

section \<open>The text handler (text.go)\<close>

text \<open>\<^verbatim>\<open>bytes.Split(s, []byte{'\n'})\<close>: the pieces between line feeds, always at least one.\<close>

fun splitLines :: "byte list \<Rightarrow> byte list list" where
  "splitLines [] = [[]]"
| "splitLines (b # bs) =
     (if b = 10 then [] # splitLines bs
      else (case splitLines bs of
              [] \<Rightarrow> [[b]]
            | line # lines \<Rightarrow> (b # line) # lines))"

definition textChunk :: "int \<Rightarrow> byte list \<Rightarrow> byte list \<Rightarrow> DiffChunk" where
  "textChunk off od nd = \<lparr>Offset = off, OldData = od, NewData = nd, ChunkType = ''text''\<rparr>"

fun textLoop :: "byte list list \<Rightarrow> byte list list \<Rightarrow> int \<Rightarrow> DiffChunk list \<Rightarrow> DiffChunk list" where
  "textLoop (oldLine # oldLines) (newLine # newLines) offset chunks =
     textLoop oldLines newLines (offset + int (length oldLine) + 1)
       (if oldLine \<noteq> newLine then chunks @ [textChunk offset oldLine newLine] else chunks)"
| "textLoop _ _ offset chunks = chunks"

definition TextCompare :: "byte list \<Rightarrow> byte list \<Rightarrow> DiffChunk list" where
  "TextCompare old new =
     (if old = new then []
      else textLoop (splitLines old) (splitLines new) 0 [])"

fun textPatchLoop ::
  "byte list \<Rightarrow> DiffChunk list \<Rightarrow> byte list \<Rightarrow> int \<Rightarrow> failure + (byte list \<times> int)" where
  "textPatchLoop original [] result lastOffset = Inr (result, lastOffset)"
| "textPatchLoop original (chunk # chunks) result lastOffset =
     (case slice original lastOffset (Offset chunk) of
        Inl e \<Rightarrow> Inl e
      | Inr seg \<Rightarrow>
          textPatchLoop original chunks (result @ seg @ NewData chunk)
            (Offset chunk + int (length (OldData chunk))))"

definition TextPatch :: "byte list \<Rightarrow> DiffChunk list \<Rightarrow> failure + byte list" where
  "TextPatch original chunks =
     (if length chunks = 0 then Inr original
      else (case textPatchLoop original chunks [] 0 of
              Inl e \<Rightarrow> Inl e
            | Inr (result, lastOffset) \<Rightarrow> patchTail original result lastOffset))"

definition TextGetFileType :: string where
  "TextGetFileType = ''text''"

section \<open>The directory comparison (DiffEngine)\<close>




























section \<open>Auxiliary notions and concrete buffers\<close>

text \<open>The relative frequency of a byte in a buffer.\<close>

definition prob :: "byte list \<Rightarrow> byte \<Rightarrow> real" where
  "prob data b = real (count_list data b) / real (length data)"

text \<open>
  Matches listed in the order of the scan: each begins, in the new buffer, at least \<open>m - 1\<close>
  bytes after the end of the one before, and each has at least the minimum length \<open>m\<close>.
\<close>

definition chain :: "int \<Rightarrow> binaryMatch list \<Rightarrow> bool" where
  "chain m ms =
     (sorted_wrt (\<lambda>a b. NewOffset a + Length a + (m - 1) \<le> NewOffset b) ms
      \<and> list_all (\<lambda>a. m \<le> Length a) ms)"

text \<open>The end, in the old buffer, of the region a chunk replaces.\<close>

definition chunkEnd :: "DiffChunk \<Rightarrow> int" where
  "chunkEnd c = Offset c + int (length (OldData c))"

text \<open>The bytes of \<^verbatim>\<open>"hello world"\<close>, the buffer used throughout the repository's tests.\<close>

definition helloWorld :: "byte list" where
  "helloWorld = [104, 101, 108, 108, 111, 32, 119, 111, 114, 108, 100]"

text \<open>\<^verbatim>\<open>"aaaaXbbbcccc"\<close> and \<^verbatim>\<open>"aaaaYbbcccc"\<close>.\<close>

definition gapOld :: "byte list" where
  "gapOld = [97, 97, 97, 97, 88, 98, 98, 98, 99, 99, 99, 99]"

definition gapNew :: "byte list" where
  "gapNew = [97, 97, 97, 97, 89, 98, 98, 99, 99, 99, 99]"

text \<open>\<^verbatim>\<open>"aaaaQQ"\<close> and \<^verbatim>\<open>"YYYYaaaaZ"\<close>.\<close>

definition shiftOld :: "byte list" where
  "shiftOld = [97, 97, 97, 97, 81, 81]"

definition shiftNew :: "byte list" where
  "shiftNew = [89, 89, 89, 89, 97, 97, 97, 97, 90]"

text \<open>\<^verbatim>\<open>"a\nb"\<close> and \<^verbatim>\<open>"a\nc"\<close>.\<close>

definition linesOld :: "byte list" where
  "linesOld = [97, 10, 98]"

definition linesNew :: "byte list" where
  "linesNew = [97, 10, 99]"

text \<open>The first \<open>n\<close> byte values, each once.\<close>

definition firstBytes :: "nat \<Rightarrow> byte list" where
  "firstBytes n = map of_nat [0..<n]"

section \<open>Auxiliary notions for the directory comparison\<close>
















section \<open>Facts about the entropy\<close>

lemma fold_freq:
  "fold (\<lambda>b freq. freq(b := Suc (freq b))) data f x = f x + count_list data x"
  by (induction data arbitrary: f) auto

lemma byteFreq_count: "byteFreq data b = count_list data b"
  by (simp add: byteFreq_def fold_freq)

lemma fold_minus: "fold (\<lambda>b (e::real). e - g b) xs e0 = e0 - sum_list (map g xs)"
  by (induction xs arbitrary: e0) auto

lemma calculateEntropy_sum:
  "calculateEntropy data =
     (if data = [] then 0 else (\<Sum>b\<in>set data. - (prob data b * log 2 (prob data b))) / 8)"
proof (cases "data = []")
  case True
  then show ?thesis by (simp add: calculateEntropy_def)
next
  case False
  have "sum_list (map (\<lambda>b. prob data b * log 2 (prob data b)) (remdups data))
        = (\<Sum>b\<in>set data. prob data b * log 2 (prob data b))"
    using sum.distinct_set_conv_list[of "remdups data" "\<lambda>b. prob data b * log 2 (prob data b)"]
    by simp
  then show ?thesis using False
    by (simp add: calculateEntropy_def Let_def byteFreq_count fold_minus prob_def sum_negf)
qed

lemma prob_pos: "b \<in> set data \<Longrightarrow> 0 < prob data b"
proof -
  assume b: "b \<in> set data"
  then have "count_list data b \<noteq> 0" by (simp add: count_list_0_iff)
  moreover have "data \<noteq> []" using b by auto
  ultimately show ?thesis by (simp add: prob_def)
qed

lemma prob_le1: "prob data b \<le> 1"
  using count_le_length[of data b] by (cases "data = []") (auto simp: prob_def)

lemma prob_sum: "data \<noteq> [] \<Longrightarrow> (\<Sum>b\<in>set data. prob data b) = 1"
proof -
  assume ne: "data \<noteq> []"
  have "(\<Sum>b\<in>set data. real (count_list data b)) = real (length data)"
    using sum_count_set[of data "set data"] by (simp flip: of_nat_sum)
  then show ?thesis using ne by (simp add: prob_def flip: sum_divide_distrib)
qed

lemma calculateEntropy_nonneg: "0 \<le> calculateEntropy data"
proof (cases "data = []")
  case True
  then show ?thesis by (simp add: calculateEntropy_def)
next
  case False
  have "0 \<le> - (prob data b * log 2 (prob data b))" if "b \<in> set data" for b
  proof -
    have "log 2 (prob data b) \<le> 0" using prob_pos[OF that] prob_le1[of data b] by simp
    then show ?thesis using prob_pos[OF that] by (simp add: mult_le_0_iff)
  qed
  then have "0 \<le> (\<Sum>b\<in>set data. - (prob data b * log 2 (prob data b)))"
    by (rule sum_nonneg)
  then show ?thesis using False by (simp add: calculateEntropy_sum)
qed

text \<open>One summand of the entropy against the uniform distribution on \<open>k\<close> values.\<close>

lemma entropy_term_bound:
  fixes p k :: real
  assumes "0 < p" "0 < k"
  shows "- (p * ln p) \<le> p * ln k + (1 / k - p)"
proof -
  have "ln (1 / (k * p)) \<le> 1 / (k * p) - 1"
    using assms by (intro ln_le_minus_one) simp
  then have "p * ln (1 / (k * p)) \<le> p * (1 / (k * p) - 1)"
    using assms by (intro mult_left_mono) auto
  moreover have "ln (1 / (k * p)) = - ln k - ln p"
    using assms by (simp add: ln_div ln_mult)
  moreover have "p * (1 / (k * p) - 1) = 1 / k - p"
    using assms by (simp add: field_simps)
  ultimately show ?thesis by (simp add: algebra_simps)
qed

lemma calculateEntropy_le_log_card:
  assumes "data \<noteq> []"
  shows "calculateEntropy data \<le> log 2 (real (card (set data))) / 8"
proof -
  let ?S = "set data" and ?k = "real (card (set data))"
  have kpos: "0 < ?k" using assms by (simp add: card_gt_0_iff)
  have "(\<Sum>b\<in>?S. - (prob data b * ln (prob data b)))
        \<le> (\<Sum>b\<in>?S. prob data b * ln ?k + (1 / ?k - prob data b))"
    by (intro sum_mono entropy_term_bound prob_pos kpos)
  also have "\<dots> = (\<Sum>b\<in>?S. prob data b) * ln ?k + (\<Sum>b\<in>?S. 1 / ?k) - (\<Sum>b\<in>?S. prob data b)"
    by (simp add: sum.distrib sum_subtractf sum_distrib_right)
  also have "\<dots> = ln ?k"
  proof -
    have "(\<Sum>b\<in>?S. 1 / ?k) = 1" using kpos assms by simp
    then show ?thesis by (simp add: prob_sum[OF assms])
  qed
  finally have nat_bound: "(\<Sum>b\<in>?S. - (prob data b * ln (prob data b))) \<le> ln ?k" .
  have "(\<Sum>b\<in>?S. - (prob data b * log 2 (prob data b)))
        = (\<Sum>b\<in>?S. - (prob data b * ln (prob data b))) / ln 2"
    by (simp add: log_def sum_divide_distrib)
  also have "\<dots> \<le> ln ?k / ln 2"
    using nat_bound by (simp add: divide_right_mono)
  finally show ?thesis using assms by (simp add: calculateEntropy_sum log_def)
qed

lemma calculateEntropy_le1: "calculateEntropy data \<le> 1"
proof (cases "data = []")
  case True
  then show ?thesis by (simp add: calculateEntropy_def)
next
  case False
  have "card (set data) \<le> card (UNIV :: byte set)" by (intro card_mono) auto
  then have c: "card (set data) \<le> 256" by (simp add: card_word)
  have pos: "0 < card (set data)" using False by (simp add: card_gt_0_iff)
  have "log 2 (real (card (set data))) \<le> log 2 (real 256)"
    using c pos by (subst log_le_cancel_iff) auto
  also have "\<dots> = 8"
    using log_nat_power[of 2 2 8] by simp
  finally show ?thesis using calculateEntropy_le_log_card[OF False] by simp
qed

lemma calculateEntropy_few:
  assumes "card (set data) \<le> 16"
  shows "calculateEntropy data \<le> 1 / 2"
proof (cases "data = []")
  case True
  then show ?thesis by (simp add: calculateEntropy_def)
next
  case False
  have pos: "0 < card (set data)" using False by (simp add: card_gt_0_iff)
  have "log 2 (real (card (set data))) \<le> log 2 (real 16)"
    using assms pos by (subst log_le_cancel_iff) auto
  also have "\<dots> = 4"
    using log_nat_power[of 2 2 4] by simp
  finally show ?thesis using calculateEntropy_le_log_card[OF False] by simp
qed

lemma count_list_replicate: "count_list (replicate n b) b = n"
  by (induction n) auto

lemma calculateEntropy_replicate: "calculateEntropy (replicate n b) = 0"
proof (cases "n = 0")
  case True
  then show ?thesis by (simp add: calculateEntropy_def)
next
  case False
  then have "set (replicate n b) = {b}" by auto
  then show ?thesis using False
    by (simp add: calculateEntropy_sum prob_def count_list_replicate)
qed

lemma count_list_distinct: "distinct xs \<Longrightarrow> x \<in> set xs \<Longrightarrow> count_list xs x = 1"
  by (induction xs) (auto simp: count_list_0_iff)

text \<open>On a buffer without repetition the entropy is that of the uniform distribution.\<close>

lemma calculateEntropy_distinct:
  assumes "distinct data" "data \<noteq> []"
  shows "calculateEntropy data = log 2 (real (length data)) / 8"
proof -
  let ?n = "real (length data)"
  have n: "0 < ?n" using assms by simp
  have "(\<Sum>b\<in>set data. - (prob data b * log 2 (prob data b)))
        = (\<Sum>b\<in>set data. (1 / ?n) * log 2 ?n)"
  proof (rule sum.cong)
    fix b assume "b \<in> set data"
    then have "prob data b = 1 / ?n"
      using assms by (simp add: prob_def count_list_distinct)
    then show "- (prob data b * log 2 (prob data b)) = (1 / ?n) * log 2 ?n"
      using n by (simp add: log_divide)
  qed simp
  also have "\<dots> = log 2 ?n"
    using n by (simp add: distinct_card[OF assms(1)])
  finally show ?thesis using assms by (simp add: calculateEntropy_sum)
qed

lemma distinct_firstBytes: "n \<le> 256 \<Longrightarrow> distinct (firstBytes n)"
  by (auto simp: firstBytes_def distinct_map inj_on_def word_of_nat_eq_iff take_bit_nat_eq_self)

lemma calculateEntropy_firstBytes:
  "0 < n \<Longrightarrow> n \<le> 256 \<Longrightarrow> calculateEntropy (firstBytes n) = log 2 (real n) / 8"
  using calculateEntropy_distinct[OF distinct_firstBytes, of n] by (simp add: firstBytes_def)

section \<open>Facts about the tuning\<close>

lemma OptimizeBinaryDiff_low:
  assumes "card (set data) \<le> 16" "length data \<le> 1048576"
  shows "OptimizeBinaryDiff h data =
           h\<lparr>MinMatchLength := 4, MaxGapSize := 2048, ChunkSize := 2048\<rparr>"
  using calculateEntropy_few[OF assms(1)] assms(2)
  by (simp add: OptimizeBinaryDiff_def Let_def)

lemma OptimizeBinaryDiff_short:
  assumes "length data \<le> 16"
  shows "OptimizeBinaryDiff h data =
           h\<lparr>MinMatchLength := 4, MaxGapSize := 2048, ChunkSize := 2048\<rparr>"
proof -
  have "card (set data) \<le> length data" by (rule card_length)
  then show ?thesis using assms by (intro OptimizeBinaryDiff_low) simp_all
qed

section \<open>Chunk types, empty patches, entropy bounds, tuning thresholds\<close>

lemma findMatches_gap_raw:
  "scanNew 4 (buildHashTable 4 gapOld 0 (\<lambda>_. [])) gapOld gapNew 0 [] =
     [\<lparr>OldOffset = 0, NewOffset = 0, Length = 4\<rparr>, \<lparr>OldOffset = 8, NewOffset = 7, Length = 4\<rparr>]"
  by (simp add: gapOld_def gapNew_def rollingHash_def Let_def buildHashTable.simps scanNew.simps)

lemma compareLoop_binary:
  "compareLoop old new ms chunks lo lnw = Inr (chunks', lo', lnw') \<Longrightarrow>
   \<forall>c\<in>set chunks. ChunkType c = ''binary'' \<Longrightarrow> \<forall>c\<in>set chunks'. ChunkType c = ''binary''"
  by (induction old new ms chunks lo lnw rule: compareLoop.induct)
     (auto simp: binaryChunk_def split: if_splits sum.splits)

lemma compareTail_binary:
  "compareTail old new chunks lo lnw = Inr chunks' \<Longrightarrow>
   \<forall>c\<in>set chunks. ChunkType c = ''binary'' \<Longrightarrow> \<forall>c\<in>set chunks'. ChunkType c = ''binary''"
  by (auto simp: compareTail_def binaryChunk_def split: if_splits sum.splits)

lemma Compare_binary:
  assumes "Compare h old new = Inr (chunks, h')"
  shows "\<forall>c\<in>set chunks. ChunkType c = ''binary''"
proof (cases "old = new")
  case True
  with assms show ?thesis by (simp add: Compare_def)
next
  case False
  with assms obtain ms cs lo lnw where
    loop: "compareLoop old new ms [] 0 0 = Inr (cs, lo, lnw)" and
    tail: "compareTail old new cs lo lnw = Inr chunks"
    by (auto simp: Compare_def Let_def split: sum.splits)
  have "\<forall>c\<in>set cs. ChunkType c = ''binary''"
    using compareLoop_binary[OF loop] by simp
  then show ?thesis using compareTail_binary[OF tail] by simp
qed

lemma textLoop_types:
  "set (map ChunkType (textLoop ols nls off chunks)) \<subseteq> insert ''text'' (set (map ChunkType chunks))"
proof (induction ols nls off chunks rule: textLoop.induct)
  case (1 oldLine oldLines newLine newLines offset chunks)
  then show ?case by (cases "oldLine = newLine") (auto simp: textChunk_def)
qed auto

lemma TextCompare_types: "c \<in> set (TextCompare old new) \<Longrightarrow> ChunkType c = ''text''"
  using textLoop_types[of "splitLines old" "splitLines new" 0 "[]"]
  by (auto simp: TextCompare_def split: if_splits)

text \<open>
  Claim C10. Every chunk a handler emits carries that handler's own file-type tag: each chunk
  that \<^verbatim>\<open>GenericBinaryHandler.Compare\<close> returns has chunk type \<^verbatim>\<open>"binary"\<close>, the value of
  its \<^verbatim>\<open>GetFileType\<close>, and each chunk that \<^verbatim>\<open>TextFileHandler.Compare\<close> returns has chunk
  type \<^verbatim>\<open>"text"\<close>, the value of its \<^verbatim>\<open>GetFileType\<close>.
\<close>

theorem chunk_type_is_handler_type:
  "(Compare h old new = Inr (chunks, h') \<longrightarrow>
      (\<forall>c\<in>set chunks. ChunkType c = ''binary'' \<and> ChunkType c = GetFileType))
   \<and> (\<forall>c\<in>set (TextCompare told tnew). ChunkType c = ''text'' \<and> ChunkType c = TextGetFileType)"
  using Compare_binary[of h old new chunks h'] TextCompare_types[of _ told tnew]
  by (auto simp: GetFileType_def TextGetFileType_def)

lemma Compare_shift:
  "Compare NewGenericBinaryHandler shiftOld shiftNew =
     Inr ([\<lparr>Offset = 0, OldData = [], NewData = [89, 89, 89, 89], ChunkType = ''binary''\<rparr>,
           \<lparr>Offset = 4, OldData = [81, 81], NewData = [90], ChunkType = ''binary''\<rparr>],
          \<lparr>MinMatchLength = 4, MaxGapSize = 2048, ChunkSize = 2048,
           Stats = Some \<lparr>MatchCount = 1, TotalMatchedBytes = 4, LargestMatch = 4,
             SmallestMatch = 4, AverageMatchSize = 4, ChunkCount = 2,
             CompressionRatio = 9 / 4, Entropy = calculateEntropy shiftNew\<rparr>\<rparr>)"
proof -
  have ne: "shiftOld \<noteq> shiftNew" by (simp add: shiftOld_def shiftNew_def)
  have opt: "OptimizeBinaryDiff NewGenericBinaryHandler shiftNew =
       \<lparr>MinMatchLength = 4, MaxGapSize = 2048, ChunkSize = 2048, Stats = Some zeroStats\<rparr>"
    by (simp add: OptimizeBinaryDiff_short shiftNew_def NewGenericBinaryHandler_def)
  have fm: "findMatches \<lparr>MinMatchLength = 4, MaxGapSize = 2048, ChunkSize = 2048,
                Stats = s\<rparr> shiftOld shiftNew
            = Inr [\<lparr>OldOffset = 0, NewOffset = 4, Length = 4\<rparr>]" for s
    by (simp add: findMatches_def shiftOld_def shiftNew_def rollingHash_def
        mergeAdjacentMatches_def Let_def buildHashTable.simps scanNew.simps)
  have len: "length shiftNew = 9" "length shiftOld = 6"
    by (simp_all add: shiftNew_def shiftOld_def)
  have sl: "slice shiftOld 0 0 = Inr []" "slice shiftNew 0 4 = Inr [89, 89, 89, 89]"
     "slice shiftOld 4 6 = Inr [81, 81]" "slice shiftNew 8 9 = Inr [90]"
    by (simp_all add: slice_def shiftNew_def shiftOld_def)
  show ?thesis
    by (simp add: Compare_def ne opt fm compareTail_def len sl binaryChunk_def
        AnalyzeBinaryDiff_def zeroStats_def)
qed

lemma TextCompare_lines:
  "TextCompare linesOld linesNew =
     [\<lparr>Offset = 2, OldData = [98], NewData = [99], ChunkType = ''text''\<rparr>]"
  by (simp add: TextCompare_def linesOld_def linesNew_def textChunk_def)

text \<open>
  Witness for C10: a comparison of the binary handler that returns two chunks, and one of the
  text handler that returns one.
\<close>

theorem chunk_type_is_handler_type_witness:
  "Compare NewGenericBinaryHandler shiftOld shiftNew =
     Inr ([\<lparr>Offset = 0, OldData = [], NewData = [89, 89, 89, 89], ChunkType = ''binary''\<rparr>,
           \<lparr>Offset = 4, OldData = [81, 81], NewData = [90], ChunkType = ''binary''\<rparr>],
          \<lparr>MinMatchLength = 4, MaxGapSize = 2048, ChunkSize = 2048,
           Stats = Some \<lparr>MatchCount = 1, TotalMatchedBytes = 4, LargestMatch = 4,
             SmallestMatch = 4, AverageMatchSize = 4, ChunkCount = 2,
             CompressionRatio = 9 / 4, Entropy = calculateEntropy shiftNew\<rparr>\<rparr>)
   \<and> GetFileType = ''binary''
   \<and> map ChunkType (TextCompare linesOld linesNew) = [TextGetFileType]"
  using chunk_type_is_handler_type[of NewGenericBinaryHandler shiftOld shiftNew _ _ linesOld linesNew]
    Compare_shift TextCompare_lines
  by (simp add: GetFileType_def)

text \<open>
  Claim C9. Applying the empty chunk sequence is the identity, without error, for both the
  binary and the text handler.
\<close>

theorem empty_patch_is_identity: "Patch x [] = Inr x \<and> TextPatch x [] = Inr x"
  by (simp add: Patch_def TextPatch_def)

text \<open>
  Claim C8. \<^verbatim>\<open>calculateEntropy\<close> returns a value in \<open>[0, 1]\<close> for every buffer, 0 for the
  empty buffer, and 0 for every non-empty buffer that repeats a single byte value.
\<close>

theorem calculateEntropy_bounds:
  "0 \<le> calculateEntropy data \<and> calculateEntropy data \<le> 1
   \<and> calculateEntropy [] = 0 \<and> calculateEntropy (replicate (Suc n) b) = 0"
  using calculateEntropy_nonneg[of data] calculateEntropy_le1[of data]
    calculateEntropy_replicate[of 0 b] calculateEntropy_replicate[of "Suc n" b]
  by simp

text \<open>
  Claim C7. On a buffer of at most 1 MiB, \<^verbatim>\<open>OptimizeBinaryDiff\<close> sets the minimum match
  length and the maximum gap size to 16 and 256 when the entropy exceeds 0.8, to 8 and 1024
  when it exceeds 0.5 but not 0.8, and to 4 and 2048 otherwise.
\<close>

theorem OptimizeBinaryDiff_thresholds:
  assumes "length data \<le> 1024 * 1024"
  shows "(calculateEntropy data > 0.8 \<longrightarrow>
            MinMatchLength (OptimizeBinaryDiff h data) = 16
            \<and> MaxGapSize (OptimizeBinaryDiff h data) = 256)
       \<and> (calculateEntropy data > 0.5 \<and> calculateEntropy data \<le> 0.8 \<longrightarrow>
            MinMatchLength (OptimizeBinaryDiff h data) = 8
            \<and> MaxGapSize (OptimizeBinaryDiff h data) = 1024)
       \<and> (calculateEntropy data \<le> 0.5 \<longrightarrow>
            MinMatchLength (OptimizeBinaryDiff h data) = 4
            \<and> MaxGapSize (OptimizeBinaryDiff h data) = 2048)"
  using assms by (simp add: OptimizeBinaryDiff_def Let_def)

text \<open>
  Witness for C7, one buffer for each of the three bands: all 256 byte values (entropy 1), the
  first 32 byte values (entropy 5/8), and \<^verbatim>\<open>"hello world"\<close> (entropy at most 1/2).
\<close>

theorem OptimizeBinaryDiff_thresholds_witness:
  "length (firstBytes 256) \<le> 1024 * 1024 \<and> calculateEntropy (firstBytes 256) = 1
   \<and> MinMatchLength (OptimizeBinaryDiff NewGenericBinaryHandler (firstBytes 256)) = 16
   \<and> MaxGapSize (OptimizeBinaryDiff NewGenericBinaryHandler (firstBytes 256)) = 256
   \<and> length (firstBytes 32) \<le> 1024 * 1024 \<and> calculateEntropy (firstBytes 32) = 5 / 8
   \<and> MinMatchLength (OptimizeBinaryDiff NewGenericBinaryHandler (firstBytes 32)) = 8
   \<and> MaxGapSize (OptimizeBinaryDiff NewGenericBinaryHandler (firstBytes 32)) = 1024
   \<and> length helloWorld \<le> 1024 * 1024
   \<and> MinMatchLength (OptimizeBinaryDiff NewGenericBinaryHandler helloWorld) = 4
   \<and> MaxGapSize (OptimizeBinaryDiff NewGenericBinaryHandler helloWorld) = 2048"
proof -
  have e256: "calculateEntropy (firstBytes 256) = 1"
    using calculateEntropy_firstBytes[of 256] log_nat_power[of 2 2 8] by simp
  have e32: "calculateEntropy (firstBytes 32) = 5 / 8"
    using calculateEntropy_firstBytes[of 32] log_nat_power[of 2 2 5] by simp
  have ehw: "calculateEntropy helloWorld \<le> 0.5"
    using calculateEntropy_few[of helloWorld] card_length[of helloWorld]
    by (simp add: helloWorld_def)
  have l: "length (firstBytes 256) \<le> 1024 * 1024" "length (firstBytes 32) \<le> 1024 * 1024"
    "length helloWorld \<le> 1024 * 1024"
    by (simp_all add: firstBytes_def helloWorld_def)
  show ?thesis
    using OptimizeBinaryDiff_thresholds[OF l(1), of NewGenericBinaryHandler]
      OptimizeBinaryDiff_thresholds[OF l(2), of NewGenericBinaryHandler]
      OptimizeBinaryDiff_thresholds[OF l(3), of NewGenericBinaryHandler]
      e256 e32 ehw l
    by simp
qed

text \<open>
  Claim C2 says that \<^verbatim>\<open>Compare\<close> returns no chunk only if the buffers are equal. The
  repository's test case "one empty file" compares \<^verbatim>\<open>"hello world"\<close> with the empty buffer and
  expects chunks; the code returns none, because the trailing chunk is emitted only when
  unmatched bytes of the new buffer remain.
\<close>

theorem Compare_one_empty_file:
  "Compare NewGenericBinaryHandler helloWorld [] =
     Inr ([], \<lparr>MinMatchLength = 4, MaxGapSize = 2048, ChunkSize = 2048,
               Stats = Some \<lparr>MatchCount = 0, TotalMatchedBytes = 0, LargestMatch = 0,
                 SmallestMatch = 4, AverageMatchSize = 0, ChunkCount = 0,
                 CompressionRatio = 1, Entropy = 0\<rparr>\<rparr>)
   \<and> helloWorld \<noteq> []"
  by (simp add: Compare_def OptimizeBinaryDiff_short findMatches_def compareTail_def
      AnalyzeBinaryDiff_def NewGenericBinaryHandler_def zeroStats_def helloWorld_def
      calculateEntropy_def)

text \<open>
  Claim C1 says that patching the old buffer with the chunks of \<^verbatim>\<open>Compare\<close> gives the new
  buffer. For \<^verbatim>\<open>"aaaaXbbbcccc"\<close> and \<^verbatim>\<open>"aaaaYbbcccc"\<close> the scan finds two matches, the merge
  bridges the gap between them although the bridged bytes differ, \<^verbatim>\<open>Compare\<close> returns no
  chunk, and \<^verbatim>\<open>Patch\<close> returns the old buffer.
\<close>

theorem Compare_gap_merge_roundtrip:
  "scanNew 4 (buildHashTable 4 gapOld 0 (\<lambda>_. [])) gapOld gapNew 0 [] =
     [\<lparr>OldOffset = 0, NewOffset = 0, Length = 4\<rparr>, \<lparr>OldOffset = 8, NewOffset = 7, Length = 4\<rparr>]
   \<and> findMatches (OptimizeBinaryDiff NewGenericBinaryHandler gapNew) gapOld gapNew =
       Inr [\<lparr>OldOffset = 0, NewOffset = 0, Length = 11\<rparr>]
   \<and> Compare NewGenericBinaryHandler gapOld gapNew =
     Inr ([], \<lparr>MinMatchLength = 4, MaxGapSize = 2048, ChunkSize = 2048,
               Stats = Some \<lparr>MatchCount = 1, TotalMatchedBytes = 11, LargestMatch = 11,
                 SmallestMatch = 4, AverageMatchSize = 11, ChunkCount = 0,
                 CompressionRatio = 1, Entropy = calculateEntropy gapNew\<rparr>\<rparr>)
   \<and> Patch gapOld [] = Inr gapOld \<and> gapOld \<noteq> gapNew"
proof -
  have ne: "gapOld \<noteq> gapNew" by (simp add: gapOld_def gapNew_def)
  have len: "length gapNew = 11" by (simp add: gapNew_def)
  have lenO: "length gapOld = 12" by (simp add: gapOld_def)
  have opt: "OptimizeBinaryDiff NewGenericBinaryHandler gapNew =
       \<lparr>MinMatchLength = 4, MaxGapSize = 2048, ChunkSize = 2048, Stats = Some zeroStats\<rparr>"
    by (simp add: OptimizeBinaryDiff_short len NewGenericBinaryHandler_def)
  have fm: "findMatches \<lparr>MinMatchLength = 4, MaxGapSize = 2048, ChunkSize = 2048,
                Stats = s\<rparr> gapOld gapNew
            = Inr [\<lparr>OldOffset = 0, NewOffset = 0, Length = 11\<rparr>]" for s
    by (simp add: findMatches_def len lenO findMatches_gap_raw mergeAdjacentMatches_def)
  have cmp: "Compare NewGenericBinaryHandler gapOld gapNew =
     Inr ([], \<lparr>MinMatchLength = 4, MaxGapSize = 2048, ChunkSize = 2048,
               Stats = Some \<lparr>MatchCount = 1, TotalMatchedBytes = 11, LargestMatch = 11,
                 SmallestMatch = 4, AverageMatchSize = 11, ChunkCount = 0,
                 CompressionRatio = 1, Entropy = calculateEntropy gapNew\<rparr>\<rparr>)"
    by (simp add: Compare_def ne opt fm compareTail_def len AnalyzeBinaryDiff_def zeroStats_def)
  have fm': "findMatches (OptimizeBinaryDiff NewGenericBinaryHandler gapNew) gapOld gapNew =
       Inr [\<lparr>OldOffset = 0, NewOffset = 0, Length = 11\<rparr>]"
    by (simp only: opt fm)
  have p: "Patch gapOld [] = Inr gapOld" by (simp add: Patch_def)
  show ?thesis
    using findMatches_gap_raw fm' cmp p ne by (intro conjI)
qed

section \<open>Order of the chunks of the binary handler\<close>

lemma tryPositions_len:
  "tryPositions m old newTail positions = Some (pos, matchLen) \<Longrightarrow> m \<le> matchLen"
  by (induction positions) (auto simp: Let_def split: if_splits)

lemma chain_Nil: "chain m []"
  by (simp add: chain_def)

lemma chain_snoc:
  "chain m (ms @ [x]) \<longleftrightarrow>
     chain m ms \<and> m \<le> Length x \<and> list_all (\<lambda>a. NewOffset a + Length a + (m - 1) \<le> NewOffset x) ms"
  by (auto simp: chain_def sorted_wrt_append list_all_iff)

lemma scanNew_chain:
  "0 < m \<Longrightarrow> chain m matches \<Longrightarrow>
   list_all (\<lambda>a. NewOffset a + Length a + (m - 1) \<le> i) matches \<Longrightarrow>
   chain m (scanNew m hashTable old new i matches)"
proof (induction m hashTable old new i matches rule: scanNew.induct)
  case (1 m hashTable old new i matches)
  show ?case
  proof (cases "0 < m \<and> i \<le> int (length new) - m")
    case False
    then show ?thesis using "1.prems" by (subst scanNew.simps) simp
  next
    case True
    let ?hash = "rollingHash (drop (nat i) new) m"
    show ?thesis
    proof (cases "tryPositions m old (drop (nat i) new) (hashTable ?hash)")
      case None
      have "list_all (\<lambda>a. NewOffset a + Length a + (m - 1) \<le> i + m) matches"
        using "1.prems"(1,3) by (auto simp: list_all_iff)
      then have "chain m (scanNew m hashTable old new (i + m) matches)"
        using "1.IH"(1)[OF True refl None] "1.prems" by simp
      then show ?thesis using True None by (subst scanNew.simps) simp
    next
      case (Some r)
      obtain pos matchLen where r: "r = (pos, matchLen)" by (cases r)
      have len: "m \<le> matchLen" using Some r tryPositions_len by simp
      let ?x = "\<lparr>OldOffset = pos, NewOffset = i, Length = matchLen\<rparr>"
      have c: "chain m (matches @ [?x])"
        using "1.prems" len by (simp add: chain_snoc)
      have b: "list_all (\<lambda>a. NewOffset a + Length a + (m - 1) \<le> i + (matchLen - 1) + m)
                 (matches @ [?x])"
        using "1.prems"(1,3) len by (auto simp: list_all_iff)
      have "chain m (scanNew m hashTable old new (i + (matchLen - 1) + m) (matches @ [?x]))"
        using "1.IH"(2)[OF True refl Some[unfolded r] refl "1.prems"(1) c b] .
      then show ?thesis using True Some r by (subst scanNew.simps) simp
    qed
  qed
qed

lemma mergeLoop_chain:
  "0 < m \<Longrightarrow> chain m (merged @ current # rest) \<Longrightarrow>
   chain m (mergeLoop maxGap current rest merged)"
proof (induction rest arbitrary: current merged)
  case Nil
  then show ?case by simp
next
  case (Cons nxt rest)
  let ?cur = "current\<lparr>Length := NewOffset nxt + Length nxt - NewOffset current\<rparr>"
  have "chain m (merged @ ?cur # rest)"
    using Cons.prems by (auto simp: chain_def sorted_wrt_append list_all_iff)
  moreover have "chain m ((merged @ [current]) @ nxt # rest)"
    using Cons.prems by simp
  ultimately show ?case
    using Cons.IH[of merged ?cur] Cons.IH[of "merged @ [current]" nxt] Cons.prems(1)
    by (simp add: Let_def)
qed

lemma mergeAdjacentMatches_chain:
  "0 < m \<Longrightarrow> chain m ms \<Longrightarrow> chain m (mergeAdjacentMatches h ms)"
proof -
  assume m: "0 < m" and c: "chain m ms"
  show ?thesis
  proof (cases ms)
    case Nil
    then show ?thesis by (simp add: mergeAdjacentMatches_def chain_Nil)
  next
    case (Cons current rest)
    show ?thesis
    proof (cases rest)
      case Nil
      then show ?thesis using c Cons by (simp add: mergeAdjacentMatches_def)
    next
      case (Cons nxt rest')
      have "mergeAdjacentMatches h ms = mergeLoop (MaxGapSize h) current rest []"
        using Cons \<open>ms = current # rest\<close> by (simp add: mergeAdjacentMatches_def)
      then show ?thesis
        using mergeLoop_chain[OF m, of "[]" current rest] c \<open>ms = current # rest\<close> by simp
    qed
  qed
qed

lemma findMatches_chain:
  assumes "findMatches h old new = Inr ms"
  shows "chain (MinMatchLength h) ms"
proof (cases "length old = 0 \<or> length new = 0")
  case True
  then show ?thesis using assms by (auto simp: findMatches_def chain_Nil)
next
  case False
  then have m: "0 < MinMatchLength h"
    using assms by (auto simp: findMatches_def split: if_splits)
  have "chain (MinMatchLength h)
          (scanNew (MinMatchLength h) (buildHashTable (MinMatchLength h) old 0 (\<lambda>_. [])) old new 0 [])"
    by (rule scanNew_chain[OF m chain_Nil]) simp
  then show ?thesis
    using assms False m mergeAdjacentMatches_chain[OF m]
    by (auto simp: findMatches_def Let_def split: if_splits)
qed


lemma slice_Inr:
  "slice xs lo hi = Inr ys \<Longrightarrow>
     0 \<le> lo \<and> lo \<le> hi \<and> hi \<le> int (length xs) \<and> int (length ys) = hi - lo"
  by (auto simp: slice_def split: if_splits)

lemma OptimizeBinaryDiff_min: "4 \<le> MinMatchLength (OptimizeBinaryDiff h data)"
  by (simp add: OptimizeBinaryDiff_def Let_def)

lemma chain_separated:
  assumes "chain m ms" "2 \<le> m"
  shows "sorted_wrt (\<lambda>a b. NewOffset a + Length a < NewOffset b) ms
         \<and> list_all (\<lambda>a. 0 \<le> Length a) ms"
proof -
  have "sorted_wrt (\<lambda>a b. NewOffset a + Length a + (m - 1) \<le> NewOffset b) ms"
    using assms(1) by (simp add: chain_def)
  then have "sorted_wrt (\<lambda>a b. NewOffset a + Length a < NewOffset b) ms"
    by (rule sorted_wrt_mono_rel[rotated]) (use assms(2) in auto)
  moreover have "list_all (\<lambda>a. 0 \<le> Length a) ms"
    using assms by (auto simp: chain_def list_all_iff)
  ultimately show ?thesis by simp
qed

lemma compareLoop_ordered:
  "compareLoop old new ms chunks lo lnw = Inr (chunks', lo', lnw') \<Longrightarrow>
   sorted_wrt (\<lambda>a b. NewOffset a + Length a < NewOffset b) ms \<Longrightarrow>
   list_all (\<lambda>a. 0 \<le> Length a) ms \<Longrightarrow>
   chunks = [] \<or> list_all (\<lambda>a. lnw < NewOffset a) ms \<Longrightarrow>
   sorted_wrt (\<lambda>c d. chunkEnd c \<le> Offset d) chunks \<Longrightarrow>
   list_all (\<lambda>c. chunkEnd c \<le> lo) chunks \<Longrightarrow>
   sorted_wrt (\<lambda>c d. chunkEnd c \<le> Offset d) chunks' \<and> list_all (\<lambda>c. chunkEnd c \<le> lo') chunks'"
proof (induction ms arbitrary: chunks lo lnw)
  case Nil
  then show ?case by simp
next
  case (Cons a ms)
  have rest: "sorted_wrt (\<lambda>a b. NewOffset a + Length a < NewOffset b) ms"
    "list_all (\<lambda>a. 0 \<le> Length a) ms" "0 \<le> Length a"
    "list_all (\<lambda>b. NewOffset a + Length a < NewOffset b) ms"
    using Cons.prems(2,3) by (auto simp: list_all_iff)
  show ?case
  proof (cases "NewOffset a > lnw")
    case True
    then obtain od nd where
      od: "slice old lo (OldOffset a) = Inr od" and
      nd: "slice new lnw (NewOffset a) = Inr nd" and
      rec: "compareLoop old new ms (chunks @ [binaryChunk lo od nd])
              (OldOffset a + Length a) (NewOffset a + Length a) = Inr (chunks', lo', lnw')"
      using Cons.prems(1) by (auto split: sum.splits)
    have e: "chunkEnd (binaryChunk lo od nd) = OldOffset a"
      using slice_Inr[OF od] by (simp add: chunkEnd_def binaryChunk_def)
    have s: "sorted_wrt (\<lambda>c d. chunkEnd c \<le> Offset d) (chunks @ [binaryChunk lo od nd])"
      using Cons.prems(5,6) by (auto simp: sorted_wrt_append list_all_iff binaryChunk_def)
    have b: "list_all (\<lambda>c. chunkEnd c \<le> OldOffset a + Length a) (chunks @ [binaryChunk lo od nd])"
      using Cons.prems(6) e rest(3) slice_Inr[OF od]
      by (auto simp: list_all_iff)
    show ?thesis
      using Cons.IH[OF rec rest(1,2) _ s b] rest(4) by simp
  next
    case False
    then have emp: "chunks = []" using Cons.prems(4) by auto
    have rec: "compareLoop old new ms chunks
              (OldOffset a + Length a) (NewOffset a + Length a) = Inr (chunks', lo', lnw')"
      using Cons.prems(1) False by simp
    show ?thesis
      using Cons.IH[OF rec rest(1,2)] emp by simp
  qed
qed

lemma compareTail_ordered:
  "compareTail old new chunks lo lnw = Inr chunks' \<Longrightarrow>
   sorted_wrt (\<lambda>c d. chunkEnd c \<le> Offset d) chunks \<Longrightarrow>
   list_all (\<lambda>c. chunkEnd c \<le> lo) chunks \<Longrightarrow>
   sorted_wrt (\<lambda>c d. chunkEnd c \<le> Offset d) chunks'"
  by (auto simp: compareTail_def sorted_wrt_append list_all_iff binaryChunk_def
      split: if_splits sum.splits)

lemma Compare_ordered:
  assumes "Compare h old new = Inr (chunks, h')"
  shows "sorted_wrt (\<lambda>c d. chunkEnd c \<le> Offset d) chunks"
proof (cases "old = new")
  case True
  with assms show ?thesis by (simp add: Compare_def)
next
  case False
  with assms obtain ms cs lo lnw where
    fm: "findMatches (OptimizeBinaryDiff h new) old new = Inr ms" and
    loop: "compareLoop old new ms [] 0 0 = Inr (cs, lo, lnw)" and
    tail: "compareTail old new cs lo lnw = Inr chunks"
    by (auto simp: Compare_def Let_def split: sum.splits)
  have "2 \<le> MinMatchLength (OptimizeBinaryDiff h new)"
    using OptimizeBinaryDiff_min[of h new] by simp
  then have sep: "sorted_wrt (\<lambda>a b. NewOffset a + Length a < NewOffset b) ms"
      "list_all (\<lambda>a. 0 \<le> Length a) ms"
    using chain_separated[OF findMatches_chain[OF fm]] by simp_all
  have "sorted_wrt (\<lambda>c d. chunkEnd c \<le> Offset d) cs \<and> list_all (\<lambda>c. chunkEnd c \<le> lo) cs"
    by (rule compareLoop_ordered[OF loop sep]) simp_all
  then show ?thesis using compareTail_ordered[OF tail] by simp
qed

text \<open>
  Claim C3. The chunks that \<^verbatim>\<open>GenericBinaryHandler.Compare\<close> returns have non-decreasing
  offsets, and the regions of the old buffer they replace, from \<open>Offset\<close> to
  \<open>Offset + len(OldData)\<close>, do not overlap: each ends no later than every later one begins.
\<close>

theorem Compare_chunks_ordered:
  assumes "Compare h old new = Inr (chunks, h')"
  shows "sorted (map Offset chunks)
       \<and> (\<forall>i j. i < j \<and> j < length chunks \<longrightarrow>
            Offset (chunks ! i) + int (length (OldData (chunks ! i))) \<le> Offset (chunks ! j))"
proof -
  have o: "sorted_wrt (\<lambda>c d. chunkEnd c \<le> Offset d) chunks"
    using Compare_ordered[OF assms] .
  then have "sorted_wrt (\<lambda>c d. Offset c \<le> Offset d) chunks"
    by (rule sorted_wrt_mono_rel[rotated]) (simp add: chunkEnd_def)
  then have "sorted (map Offset chunks)"
    by (simp add: sorted_map)
  moreover have "\<forall>i j. i < j \<and> j < length chunks \<longrightarrow>
            Offset (chunks ! i) + int (length (OldData (chunks ! i))) \<le> Offset (chunks ! j)"
    using o by (simp add: sorted_wrt_iff_nth_less chunkEnd_def)
  ultimately show ?thesis by simp
qed

text \<open>
  Witness for C3: \<^verbatim>\<open>"aaaaQQ"\<close> against \<^verbatim>\<open>"YYYYaaaaZ"\<close> gives an insertion at offset 0 and a
  replacement of the last two old bytes at offset 4.
\<close>

theorem Compare_chunks_ordered_witness:
  "Compare NewGenericBinaryHandler shiftOld shiftNew =
     Inr ([\<lparr>Offset = 0, OldData = [], NewData = [89, 89, 89, 89], ChunkType = ''binary''\<rparr>,
           \<lparr>Offset = 4, OldData = [81, 81], NewData = [90], ChunkType = ''binary''\<rparr>],
          \<lparr>MinMatchLength = 4, MaxGapSize = 2048, ChunkSize = 2048,
           Stats = Some \<lparr>MatchCount = 1, TotalMatchedBytes = 4, LargestMatch = 4,
             SmallestMatch = 4, AverageMatchSize = 4, ChunkCount = 2,
             CompressionRatio = 9 / 4, Entropy = calculateEntropy shiftNew\<rparr>\<rparr>)
   \<and> sorted [0, 4 :: int] \<and> (0 :: int) + int (length ([] :: byte list)) \<le> 4"
  using Compare_chunks_ordered[OF Compare_shift] Compare_shift
  by simp


section \<open>Statistics of a comparison\<close>












section \<open>The stats kept by the handler\<close>

lemma findMatches_params:
  assumes "MinMatchLength h = MinMatchLength h2" "MaxGapSize h = MaxGapSize h2"
  shows "findMatches h old new = findMatches h2 old new"
  by (simp only: findMatches_def mergeAdjacentMatches_def assms)

lemma AnalyzeBinaryDiff_params:
  assumes "MinMatchLength h = MinMatchLength h2" "MaxGapSize h = MaxGapSize h2"
  shows "AnalyzeBinaryDiff h old new = AnalyzeBinaryDiff h2 old new"
  by (simp only: AnalyzeBinaryDiff_def findMatches_params[OF assms] assms(1))

lemma OptimizeBinaryDiff_params:
  "MinMatchLength (OptimizeBinaryDiff h d) = MinMatchLength (OptimizeBinaryDiff h2 d)"
  "MaxGapSize (OptimizeBinaryDiff h d) = MaxGapSize (OptimizeBinaryDiff h2 d)"
  by (simp_all add: OptimizeBinaryDiff_def Let_def)

lemma Compare_stats_of_call:
  assumes "old \<noteq> new" "Compare h old new = Inr (chunks, h')"
  shows "\<exists>stats. AnalyzeBinaryDiff (OptimizeBinaryDiff h new) old new = Inr stats
           \<and> Stats h' = Some (stats\<lparr>ChunkCount := int (length chunks),
                                    Entropy := calculateEntropy new\<rparr>)"
  using assms by (auto simp: Compare_def Let_def split: sum.splits)

lemma Compare_other_handler:
  assumes "old \<noteq> new" "Compare h old new = Inr (chunks, h')"
  shows "\<exists>h2'. Compare h2 old new = Inr (chunks, h2') \<and> Stats h2' = Stats h'"
proof -
  let ?o = "OptimizeBinaryDiff h new" and ?o2 = "OptimizeBinaryDiff h2 new"
  have fm: "findMatches ?o2 old new = findMatches ?o old new"
    by (rule findMatches_params) (rule OptimizeBinaryDiff_params)+
  have an: "AnalyzeBinaryDiff ?o2 old new = AnalyzeBinaryDiff ?o old new"
    by (rule AnalyzeBinaryDiff_params) (rule OptimizeBinaryDiff_params)+
  show ?thesis
    using assms by (auto simp: Compare_def Let_def fm an split: sum.splits)
qed

text \<open>
  Claim C5, as amended. A call of \<^verbatim>\<open>Compare\<close> on equal buffers returns at once and leaves the
  handler, and so the stats of an earlier call, as they were. After a call on different buffers
  that returns, \<^verbatim>\<open>GetLatestStats\<close> gives the stats recomputed for this call: those of
  \<^verbatim>\<open>AnalyzeBinaryDiff\<close> on the tuned handler with the chunk count and the entropy set, and
  the same for every handler the call could have started from, so nothing of the previous
  stats remains.
\<close>

theorem Compare_replaces_stats:
  "Compare h x x = Inr ([], h)
   \<and> (old \<noteq> new \<and> Compare h old new = Inr (chunks, h') \<longrightarrow>
        (\<exists>stats. AnalyzeBinaryDiff (OptimizeBinaryDiff h new) old new = Inr stats
           \<and> GetLatestStats h' = Some (stats\<lparr>ChunkCount := int (length chunks),
                                             Entropy := calculateEntropy new\<rparr>))
      \<and> (\<forall>h2. \<exists>h2'. Compare h2 old new = Inr (chunks, h2')
                \<and> GetLatestStats h2' = GetLatestStats h'))"
  using Compare_stats_of_call[of old new h chunks h'] Compare_other_handler[of old new h chunks h']
  by (simp add: GetLatestStats_def Compare_def)


lemma Compare_shift_any:
  "Compare h shiftOld shiftNew =
     Inr ([\<lparr>Offset = 0, OldData = [], NewData = [89, 89, 89, 89], ChunkType = ''binary''\<rparr>,
           \<lparr>Offset = 4, OldData = [81, 81], NewData = [90], ChunkType = ''binary''\<rparr>],
          \<lparr>MinMatchLength = 4, MaxGapSize = 2048, ChunkSize = 2048,
           Stats = Some \<lparr>MatchCount = 1, TotalMatchedBytes = 4, LargestMatch = 4,
             SmallestMatch = 4, AverageMatchSize = 4, ChunkCount = 2,
             CompressionRatio = 9 / 4, Entropy = calculateEntropy shiftNew\<rparr>\<rparr>)"
proof -
  obtain a b c d where h: "h = \<lparr>MinMatchLength = a, MaxGapSize = b, ChunkSize = c, Stats = d\<rparr>"
    by (cases h) auto
  have ne: "shiftOld \<noteq> shiftNew" by (simp add: shiftOld_def shiftNew_def)
  have opt: "OptimizeBinaryDiff h shiftNew =
       \<lparr>MinMatchLength = 4, MaxGapSize = 2048, ChunkSize = 2048, Stats = d\<rparr>"
    by (simp add: OptimizeBinaryDiff_short shiftNew_def h)
  have fm: "findMatches \<lparr>MinMatchLength = 4, MaxGapSize = 2048, ChunkSize = 2048,
                Stats = s\<rparr> shiftOld shiftNew
            = Inr [\<lparr>OldOffset = 0, NewOffset = 4, Length = 4\<rparr>]" for s
    by (simp add: findMatches_def shiftOld_def shiftNew_def rollingHash_def
        mergeAdjacentMatches_def Let_def buildHashTable.simps scanNew.simps)
  have len: "length shiftNew = 9" "length shiftOld = 6"
    by (simp_all add: shiftNew_def shiftOld_def)
  have sl: "slice shiftOld 0 0 = Inr []" "slice shiftNew 0 4 = Inr [89, 89, 89, 89]"
     "slice shiftOld 4 6 = Inr [81, 81]" "slice shiftNew 8 9 = Inr [90]"
    by (simp_all add: slice_def shiftNew_def shiftOld_def)
  show ?thesis
    by (simp add: Compare_def ne opt fm compareTail_def len sl binaryChunk_def
        AnalyzeBinaryDiff_def zeroStats_def)
qed

text \<open>
  Witness for C5: a call on equal buffers, a call on different buffers with a fresh handler,
  and the same call again from the handler the first one left.
\<close>

theorem Compare_replaces_stats_witness:
  "Compare NewGenericBinaryHandler helloWorld helloWorld = Inr ([], NewGenericBinaryHandler)
   \<and> shiftOld \<noteq> shiftNew
   \<and> Compare NewGenericBinaryHandler shiftOld shiftNew =
     Inr ([\<lparr>Offset = 0, OldData = [], NewData = [89, 89, 89, 89], ChunkType = ''binary''\<rparr>,
           \<lparr>Offset = 4, OldData = [81, 81], NewData = [90], ChunkType = ''binary''\<rparr>],
          \<lparr>MinMatchLength = 4, MaxGapSize = 2048, ChunkSize = 2048,
           Stats = Some \<lparr>MatchCount = 1, TotalMatchedBytes = 4, LargestMatch = 4,
             SmallestMatch = 4, AverageMatchSize = 4, ChunkCount = 2,
             CompressionRatio = 9 / 4, Entropy = calculateEntropy shiftNew\<rparr>\<rparr>)
   \<and> GetLatestStats \<lparr>MinMatchLength = 4, MaxGapSize = 2048, ChunkSize = 2048,
           Stats = Some \<lparr>MatchCount = 1, TotalMatchedBytes = 4, LargestMatch = 4,
             SmallestMatch = 4, AverageMatchSize = 4, ChunkCount = 2,
             CompressionRatio = 9 / 4, Entropy = calculateEntropy shiftNew\<rparr>\<rparr> =
       Some \<lparr>MatchCount = 1, TotalMatchedBytes = 4, LargestMatch = 4,
             SmallestMatch = 4, AverageMatchSize = 4, ChunkCount = 2,
             CompressionRatio = 9 / 4, Entropy = calculateEntropy shiftNew\<rparr>
   \<and> Compare \<lparr>MinMatchLength = 4, MaxGapSize = 2048, ChunkSize = 2048,
           Stats = Some \<lparr>MatchCount = 1, TotalMatchedBytes = 4, LargestMatch = 4,
             SmallestMatch = 4, AverageMatchSize = 4, ChunkCount = 2,
             CompressionRatio = 9 / 4, Entropy = calculateEntropy shiftNew\<rparr>\<rparr> shiftOld shiftNew =
     Inr ([\<lparr>Offset = 0, OldData = [], NewData = [89, 89, 89, 89], ChunkType = ''binary''\<rparr>,
           \<lparr>Offset = 4, OldData = [81, 81], NewData = [90], ChunkType = ''binary''\<rparr>],
          \<lparr>MinMatchLength = 4, MaxGapSize = 2048, ChunkSize = 2048,
           Stats = Some \<lparr>MatchCount = 1, TotalMatchedBytes = 4, LargestMatch = 4,
             SmallestMatch = 4, AverageMatchSize = 4, ChunkCount = 2,
             CompressionRatio = 9 / 4, Entropy = calculateEntropy shiftNew\<rparr>\<rparr>)"
proof -
  have ne: "shiftOld \<noteq> shiftNew" by (simp add: shiftOld_def shiftNew_def)
  show ?thesis
    using Compare_replaces_stats[of NewGenericBinaryHandler helloWorld shiftOld shiftNew]
      ne Compare_shift_any
    by (simp add: GetLatestStats_def)
qed

text \<open>
  Counterexample to C5 as stated: after comparing \<^verbatim>\<open>"aaaaQQ"\<close> with \<^verbatim>\<open>"YYYYaaaaZ"\<close>, a
  call on two empty buffers leaves the stats of the first call (one match, two chunks) in
  place, where a recomputation for the second call gives no match and compression ratio 1.
\<close>

theorem stale_stats_counterexample:
  "Compare NewGenericBinaryHandler shiftOld shiftNew =
     Inr ([\<lparr>Offset = 0, OldData = [], NewData = [89, 89, 89, 89], ChunkType = ''binary''\<rparr>,
           \<lparr>Offset = 4, OldData = [81, 81], NewData = [90], ChunkType = ''binary''\<rparr>],
          \<lparr>MinMatchLength = 4, MaxGapSize = 2048, ChunkSize = 2048,
           Stats = Some \<lparr>MatchCount = 1, TotalMatchedBytes = 4, LargestMatch = 4,
             SmallestMatch = 4, AverageMatchSize = 4, ChunkCount = 2,
             CompressionRatio = 9 / 4, Entropy = calculateEntropy shiftNew\<rparr>\<rparr>)
   \<and> Compare \<lparr>MinMatchLength = 4, MaxGapSize = 2048, ChunkSize = 2048,
           Stats = Some \<lparr>MatchCount = 1, TotalMatchedBytes = 4, LargestMatch = 4,
             SmallestMatch = 4, AverageMatchSize = 4, ChunkCount = 2,
             CompressionRatio = 9 / 4, Entropy = calculateEntropy shiftNew\<rparr>\<rparr> [] [] = Inr ([], \<lparr>MinMatchLength = 4, MaxGapSize = 2048, ChunkSize = 2048,
           Stats = Some \<lparr>MatchCount = 1, TotalMatchedBytes = 4, LargestMatch = 4,
             SmallestMatch = 4, AverageMatchSize = 4, ChunkCount = 2,
             CompressionRatio = 9 / 4, Entropy = calculateEntropy shiftNew\<rparr>\<rparr>)
   \<and> GetLatestStats \<lparr>MinMatchLength = 4, MaxGapSize = 2048, ChunkSize = 2048,
           Stats = Some \<lparr>MatchCount = 1, TotalMatchedBytes = 4, LargestMatch = 4,
             SmallestMatch = 4, AverageMatchSize = 4, ChunkCount = 2,
             CompressionRatio = 9 / 4, Entropy = calculateEntropy shiftNew\<rparr>\<rparr> =
       Some \<lparr>MatchCount = 1, TotalMatchedBytes = 4, LargestMatch = 4,
             SmallestMatch = 4, AverageMatchSize = 4, ChunkCount = 2,
             CompressionRatio = 9 / 4, Entropy = calculateEntropy shiftNew\<rparr>
   \<and> AnalyzeBinaryDiff (OptimizeBinaryDiff \<lparr>MinMatchLength = 4, MaxGapSize = 2048, ChunkSize = 2048,
           Stats = Some \<lparr>MatchCount = 1, TotalMatchedBytes = 4, LargestMatch = 4,
             SmallestMatch = 4, AverageMatchSize = 4, ChunkCount = 2,
             CompressionRatio = 9 / 4, Entropy = calculateEntropy shiftNew\<rparr>\<rparr> []) [] [] =
       Inr \<lparr>MatchCount = 0, TotalMatchedBytes = 0, LargestMatch = 0, SmallestMatch = 4,
            AverageMatchSize = 0, ChunkCount = 0, CompressionRatio = 1, Entropy = 0\<rparr>"
  using Compare_shift_any
  by (simp add: GetLatestStats_def Compare_def OptimizeBinaryDiff_short AnalyzeBinaryDiff_def
      findMatches_def zeroStats_def)

section \<open>Failure policy of the directory comparison\<close>




































end
